theory Spec2Isabelle
  imports Main
begin

section \<open>The \<open>useReducer\<close> example of README.md\<close>

subsection \<open>Values\<close>

text \<open>
  The fragment of JavaScript values the example handles. The two payloads of the example
  come from the promise returned by \<open>axios\<close>: \<open>results.data\<close> and the rejection
  reason \<open>error\<close>. Both have the static type \<open>any\<close>, which the type checker accepts
  where \<open>HNResponse\<close> and \<open>string\<close> are declared, so at run time these fields hold
  whatever value the promise delivers. An object is its list of properties, read with
  \<open>map_of\<close>.
\<close>

datatype jsval =
    JUndefined
  | JString string
  | JArray "jsval list"
  | JObject "(string \<times> jsval) list"

fun is_string :: "jsval \<Rightarrow> bool" where
  "is_string (JString s) = True"
| "is_string v = False"

text \<open>
  \<^verbatim>\<open>
  type State =
    | { status: 'empty' }
    | { status: 'loading' }
    | { status: 'error'; error: string }
    | { status: 'success'; data: HNResponse };
  type Action =
    | { type: 'request' }
    | { type: 'success'; results: HNResponse }
    | { type: 'failure'; error: string };
  \<close>
  The tags are string literals of the program itself, so a tagged union is a datatype
  with one constructor per tag; the payload fields are run-time values.
\<close>

datatype State =
    Empty
  | Loading
  | Error jsval
  | Success jsval

datatype Action =
    Request
  | SuccessA jsval
  | Failure jsval

subsection \<open>The reducer\<close>

text \<open>
  \<^verbatim>\<open>
  function reducer(state: State, action: Action): State {
    switch (action.type) {
      case 'request': return { status: 'loading' };
      case 'success': return { status: 'success', data: action.results };
      case 'failure': return { status: 'error', error: action.error };
    }
  }
  \<close>
\<close>

fun reducer :: "State \<Rightarrow> Action \<Rightarrow> State" where
  "reducer state Request = Loading"
| "reducer state (SuccessA results) = Success results"
| "reducer state (Failure error) = Error error"

subsection \<open>The reducer as it runs\<close>

text \<open>
  Types are erased before the program runs: \<open>reducer\<close> then receives arbitrary values.
  \<open>read_prop v k\<close> is the member access \<open>v.k\<close> for the names the example reads
  (\<open>type\<close>, \<open>results\<close>, \<open>error\<close>), none of which a string or an array has: it
  is \<open>None\<close> where JavaScript raises a TypeError (access on \<open>undefined\<close>), and the
  value \<open>undefined\<close> for a property that is absent.
\<close>

fun read_prop :: "jsval \<Rightarrow> string \<Rightarrow> jsval option" where
  "read_prop JUndefined k = None"
| "read_prop (JString s) k = Some JUndefined"
| "read_prop (JArray vs) k = Some JUndefined"
| "read_prop (JObject ps) k = Some (case map_of ps k of None \<Rightarrow> JUndefined | Some v \<Rightarrow> v)"

datatype completion = Returned jsval | Thrown

text \<open>
  The \<open>switch\<close> compares \<open>action.type\<close> with each label by strict equality and has
  no \<open>default\<close> clause: when no label matches, control reaches the end of the function
  body, and the call returns \<open>undefined\<close>.
\<close>

definition reducer_js :: "jsval \<Rightarrow> jsval \<Rightarrow> completion" where
  "reducer_js state action =
     (case read_prop action ''type'' of
        None \<Rightarrow> Thrown
      | Some t \<Rightarrow>
          if t = JString ''request'' then
            Returned (JObject [(''status'', JString ''loading'')])
          else if t = JString ''success'' then
            (case read_prop action ''results'' of
               None \<Rightarrow> Thrown
             | Some results \<Rightarrow>
                 Returned (JObject [(''status'', JString ''success''), (''data'', results)]))
          else if t = JString ''failure'' then
            (case read_prop action ''error'' of
               None \<Rightarrow> Thrown
             | Some error \<Rightarrow>
                 Returned (JObject [(''status'', JString ''error''), (''error'', error)]))
          else Returned JUndefined)"

text \<open>The objects that the values of the declared types \<open>State\<close> and \<open>Action\<close> are.\<close>

fun js_of_State :: "State \<Rightarrow> jsval" where
  "js_of_State Empty = JObject [(''status'', JString ''empty'')]"
| "js_of_State Loading = JObject [(''status'', JString ''loading'')]"
| "js_of_State (Error e) = JObject [(''status'', JString ''error''), (''error'', e)]"
| "js_of_State (Success d) = JObject [(''status'', JString ''success''), (''data'', d)]"

fun js_of_Action :: "Action \<Rightarrow> jsval" where
  "js_of_Action Request = JObject [(''type'', JString ''request'')]"
| "js_of_Action (SuccessA r) = JObject [(''type'', JString ''success''), (''results'', r)]"
| "js_of_Action (Failure e) = JObject [(''type'', JString ''failure''), (''error'', e)]"

subsection \<open>The component\<close>

text \<open>
  \<^verbatim>\<open>
  function App() {
    const [query, setQuery] = useState<string>();
    const [state, dispatch] = useReducer(reducer, { status: 'empty' });
    useEffect(() => {
      let ignore = false;
      dispatch({ type: 'request' });
      axios(`https://hn.algolia.com/api/v1/search?query=${query}`).then(
        results => { if (!ignore) dispatch({ type: 'success', results: results.data }); },
        error => dispatch({ type: 'failure', error }),
      );
      return () => { ignore = true; };
    }, [query]);
    ... <input value={query} onChange={e => setQuery(e.target.value)} /> ...
  }
  \<close>
  Every run of the effect has an \<open>ignore\<close> variable of its own, captured by the two
  handlers of that run's promise and by that run's cleanup function. The runs are kept in
  a list, in the order they started; a run's index identifies its promise. \<open>for_query\<close>
  is the query that the run put into the URL (\<open>None\<close> is \<open>undefined\<close>, the query
  before the first edit), and \<open>settled\<close> records that the promise has resolved or
  rejected. \<open>dispatched\<close> logs the calls of \<open>dispatch\<close>, oldest first.
\<close>

record effect_run =
  for_query :: "string option"
  ignore :: bool
  settled :: bool

record app =
  query :: "string option"
  state :: State
  runs :: "effect_run list"
  dispatched :: "Action list"

text \<open>\<open>useReducer\<close>: a dispatched action replaces the state by the reducer's result.\<close>

definition dispatch :: "Action \<Rightarrow> app \<Rightarrow> app" where
  "dispatch a c = c\<lparr>state := reducer (state c) a, dispatched := dispatched c @ [a]\<rparr>"

text \<open>The body of the effect: a fresh \<open>ignore\<close>, the \<open>request\<close> action, the call.\<close>

definition effect :: "app \<Rightarrow> app" where
  "effect c =
     (dispatch Request c)
       \<lparr>runs := runs c @ [\<lparr>for_query = query c, ignore = False, settled = False\<rparr>]\<rparr>"

text \<open>The cleanup function returned by the latest run of the effect.\<close>

definition cleanup :: "app \<Rightarrow> app" where
  "cleanup c =
     (case rev (runs c) of
        [] \<Rightarrow> c
      | r # rs \<Rightarrow> c\<lparr>runs := rev rs @ [r\<lparr>ignore := True\<rparr>]\<rparr>)"

text \<open>
  \<open>setQuery\<close> with the value the state already has renders nothing anew; with another
  value the dependency \<open>[query]\<close> has changed, so the cleanup of the previous run and
  then the effect run again.
\<close>

definition setQuery :: "string \<Rightarrow> app \<Rightarrow> app" where
  "setQuery q c = (if query c = Some q then c else effect (cleanup (c\<lparr>query := Some q\<rparr>)))"

definition settle :: "nat \<Rightarrow> app \<Rightarrow> app" where
  "settle i c = c\<lparr>runs := (runs c)[i := (runs c ! i)\<lparr>settled := True\<rparr>]\<rparr>"

text \<open>
  The two handlers passed to \<open>then\<close>. A promise settles once, and only a promise that
  exists settles: for any other index nothing happens.
\<close>

definition on_fulfilled :: "nat \<Rightarrow> jsval \<Rightarrow> app \<Rightarrow> app" where
  "on_fulfilled i data c =
     (if i < length (runs c) \<and> \<not> settled (runs c ! i) then
        (if \<not> ignore (runs c ! i) then dispatch (SuccessA data) (settle i c) else settle i c)
      else c)"

definition on_rejected :: "nat \<Rightarrow> jsval \<Rightarrow> app \<Rightarrow> app" where
  "on_rejected i error c =
     (if i < length (runs c) \<and> \<not> settled (runs c ! i) then
        dispatch (Failure error) (settle i c)
      else c)"

datatype event =
    SetQuery string
  | Resolve nat jsval
  | Reject nat jsval

fun step :: "app \<Rightarrow> event \<Rightarrow> app" where
  "step c (SetQuery q) = setQuery q c"
| "step c (Resolve i d) = on_fulfilled i d c"
| "step c (Reject i e) = on_rejected i e c"

text \<open>
  The first render creates the two state cells; the effect runs once after it. From then
  on the component reacts to the events, one at a time.
\<close>

definition first_render :: app where
  "first_render = \<lparr>query = None, state = Empty, runs = [], dispatched = []\<rparr>"

definition mount :: app where
  "mount = effect first_render"

definition run :: "event list \<Rightarrow> app" where
  "run evs = foldl step mount evs"

subsection \<open>Invariants of the component\<close>

text \<open>
  \<open>logged\<close>: the state cell holds what the reducer makes of the dispatched actions,
  starting from \<open>empty\<close>. \<open>fresh_last\<close>: the \<open>ignore\<close> variable of a run is set
  exactly when a later run has started.
\<close>

definition logged :: "app \<Rightarrow> bool" where
  "logged c \<longleftrightarrow> state c = foldl reducer Empty (dispatched c)"

definition fresh_last :: "app \<Rightarrow> bool" where
  "fresh_last c \<longleftrightarrow>
     (\<forall>i < length (runs c). ignore (runs c ! i) = (Suc i < length (runs c)))"

section \<open>Properties of the reducer\<close>

text \<open>
  Claim C1. From every state, the action \<open>request\<close> leads to the state \<open>loading\<close>.
\<close>

theorem reducer_request: "reducer s Request = Loading"
  by simp

text \<open>
  Claim C2. From every state, the action \<open>success\<close> with any results leads to the
  state \<open>success\<close> holding the same results.
\<close>

theorem reducer_success: "reducer s (SuccessA results) = Success results"
  by simp

text \<open>
  Claim C3. From every state, the action \<open>failure\<close> with any message string leads to
  the state \<open>error\<close> holding the same message.
\<close>

theorem reducer_failure: "reducer s (Failure (JString message)) = Error (JString message)"
  by simp

text \<open>
  Claim C6. The next state does not depend on the current one: from any two states the
  same action leads to the same state.
\<close>

theorem reducer_ignores_state: "reducer s1 a = reducer s2 a"
  by (cases a) simp_all

lemma foldl_reducer_not_Empty: "s \<noteq> Empty \<Longrightarrow> foldl reducer s as \<noteq> Empty"
proof (induction as arbitrary: s)
  case Nil
  then show ?case by simp
next
  case (Cons a as)
  have "reducer s a \<noteq> Empty" by (cases a) simp_all
  then show ?case using Cons.IH by simp
qed

subsection \<open>Declared and undeclared actions\<close>

text \<open>
  On the objects of the declared types the erased function returns, and returns the
  object of the state that \<open>reducer\<close> computes.
\<close>

lemma reducer_js_refines:
  "reducer_js (js_of_State s) (js_of_Action a) = Returned (js_of_State (reducer s a))"
  by (cases s; cases a) (simp_all add: reducer_js_def)

text \<open>
  Claim C4, as stated, asks that an action whose tag is none of the three fails fast.
  The function has no such check: for the tag \<open>bogus\<close> no label matches and the call
  returns \<open>undefined\<close> without raising.
\<close>

theorem unrecognized_tag_returns_undefined:
  "reducer_js (js_of_State Empty) (JObject [(''type'', JString ''bogus'')]) = Returned JUndefined
   \<and> reducer_js (js_of_State Empty) (JObject [(''type'', JString ''bogus'')]) \<noteq> Thrown"
  by (simp add: reducer_js_def)

text \<open>
  Claim C4, amended. The reducer is total on its declared domain: for every declared
  state and action the call returns, never raises, and its result is a declared state.
  An action with any other tag is excluded by the static type alone; at run time the
  call returns \<open>undefined\<close> for it, whatever the state and the other properties.
\<close>

theorem reducer_total_on_declared:
  "reducer_js (js_of_State s) (js_of_Action a) = Returned (js_of_State (reducer s a))
   \<and> (read_prop act ''type'' = Some t
        \<and> t \<notin> {JString ''request'', JString ''success'', JString ''failure''}
      \<longrightarrow> reducer_js v act = Returned JUndefined)"
proof
  show "reducer_js (js_of_State s) (js_of_Action a) = Returned (js_of_State (reducer s a))"
    by (rule reducer_js_refines)
  show "read_prop act ''type'' = Some t
        \<and> t \<notin> {JString ''request'', JString ''success'', JString ''failure''}
      \<longrightarrow> reducer_js v act = Returned JUndefined"
    by (simp add: reducer_js_def)
qed

theorem reducer_total_on_declared_witness:
  "reducer_js (js_of_State Loading) (js_of_Action (Failure (JString ''network error'')))
     = Returned (js_of_State (Error (JString ''network error'')))
   \<and> read_prop (JObject [(''type'', JString ''bogus''), (''error'', JString ''x'')]) ''type''
       = Some (JString ''bogus'')
   \<and> JString ''bogus'' \<notin> {JString ''request'', JString ''success'', JString ''failure''}
   \<and> reducer_js (js_of_State Loading)
         (JObject [(''type'', JString ''bogus''), (''error'', JString ''x'')])
       = Returned JUndefined"
  using reducer_total_on_declared [of Loading "Failure (JString ''network error'')"
      "JObject [(''type'', JString ''bogus''), (''error'', JString ''x'')]" "JString ''bogus''"
      "js_of_State Loading"]
  by simp

section \<open>Properties of the component\<close>

subsection \<open>Traces\<close>

lemma run_Nil: "run [] = mount"
  by (simp add: run_def)

lemma run_snoc: "run (evs @ [e]) = step (run evs) e"
  by (simp add: run_def)

subsection \<open>The state cell is written by \<open>dispatch\<close> alone\<close>

lemma logged_dispatch: "logged c \<Longrightarrow> logged (dispatch a c)"
  by (simp add: logged_def dispatch_def)

lemma logged_effect: "logged c \<Longrightarrow> logged (effect c)"
  by (simp add: logged_def effect_def dispatch_def)

lemma logged_cleanup: "logged c \<Longrightarrow> logged (cleanup c)"
  by (simp add: logged_def cleanup_def split: list.splits)

lemma logged_settle: "logged c \<Longrightarrow> logged (settle i c)"
  by (simp add: logged_def settle_def)

lemma logged_step: "logged c \<Longrightarrow> logged (step c e)"
proof (cases e)
  case (SetQuery q)
  assume "logged c"
  then have "logged (c\<lparr>query := Some q\<rparr>)" by (simp add: logged_def)
  then have "logged (effect (cleanup (c\<lparr>query := Some q\<rparr>)))"
    by (intro logged_effect logged_cleanup)
  with \<open>logged c\<close> show ?thesis using SetQuery by (simp add: setQuery_def)
next
  case (Resolve i d)
  assume "logged c"
  then show ?thesis using Resolve
    by (simp add: on_fulfilled_def logged_dispatch logged_settle)
next
  case (Reject i e')
  assume "logged c"
  then show ?thesis using Reject
    by (simp add: on_rejected_def logged_dispatch logged_settle)
qed

lemma logged_mount: "logged mount"
proof -
  have "logged first_render" by (simp add: logged_def first_render_def)
  then show ?thesis unfolding mount_def by (rule logged_effect)
qed

lemma logged_run: "logged (run evs)"
  by (induction evs rule: rev_induct) (simp_all add: run_Nil run_snoc logged_mount logged_step)

text \<open>
  Claim C8. The first render creates the state as \<open>empty\<close>, and after any sequence of
  events the state is the result of applying the reducer, from \<open>empty\<close>, to the
  actions dispatched so far, in order: nothing else has written the cell.
\<close>

theorem state_written_by_dispatch_only:
  "state first_render = Empty
   \<and> state (run evs) = foldl reducer Empty (dispatched (run evs))"
  using logged_run [of evs] by (simp add: logged_def first_render_def)

subsection \<open>The state \<open>empty\<close> is never entered again\<close>

lemma dispatched_step: "\<exists>as. dispatched (step c e) = dispatched c @ as"
  by (cases e)
    (simp_all add: setQuery_def effect_def cleanup_def dispatch_def on_fulfilled_def
      on_rejected_def settle_def split: list.splits)

lemma dispatched_run: "\<exists>as. dispatched (run evs) = Request # as"
proof (induction evs rule: rev_induct)
  case Nil
  show ?case by (simp add: run_Nil mount_def effect_def dispatch_def first_render_def)
next
  case (snoc e evs)
  then obtain as where "dispatched (run evs) = Request # as" by blast
  moreover obtain bs where "dispatched (step (run evs) e) = dispatched (run evs) @ bs"
    using dispatched_step by blast
  ultimately show ?case by (simp add: run_snoc)
qed

text \<open>
  Claim C10. The reducer never returns \<open>empty\<close>, so the state is not \<open>empty\<close> after
  one or more actions, from whatever state; the mounted component, whose effect has
  dispatched \<open>request\<close>, is never in the state \<open>empty\<close>.
\<close>

theorem reducer_never_Empty:
  "reducer s a \<noteq> Empty
   \<and> foldl reducer s (a # as) \<noteq> Empty
   \<and> state (run evs) \<noteq> Empty"
proof (intro conjI)
  show first: "reducer s a \<noteq> Empty" by (cases a) simp_all
  show "foldl reducer s (a # as) \<noteq> Empty"
    using foldl_reducer_not_Empty [OF first] by simp
  obtain bs where "dispatched (run evs) = Request # bs"
    using dispatched_run by blast
  then have "state (run evs) = foldl reducer Loading bs"
    using logged_run [of evs] by (simp add: logged_def)
  then show "state (run evs) \<noteq> Empty"
    by (simp add: foldl_reducer_not_Empty)
qed

subsection \<open>Responses to a query that has changed\<close>

lemma fresh_last_setQuery:
  assumes "fresh_last c"
  shows "fresh_last (setQuery q c)"
proof (cases "query c = Some q")
  case True
  then show ?thesis using assms by (simp add: setQuery_def)
next
  case False
  show ?thesis
  proof (cases "rev (runs c)")
    case Nil
    then show ?thesis using False
      by (simp add: setQuery_def effect_def cleanup_def dispatch_def fresh_last_def)
  next
    case (Cons r rs)
    then have rc: "runs c = rev rs @ [r]" by (metis rev_rev_ident rev.simps(2))
    have old: "\<forall>i < length rs. ignore (rev rs ! i)"
    proof (intro allI impI)
      fix i assume "i < length rs"
      have len: "length (runs c) = Suc (length rs)" by (simp add: rc)
      have "ignore (runs c ! i) = (Suc i < length (runs c))"
        using assms \<open>i < length rs\<close> unfolding fresh_last_def len by simp
      moreover have "runs c ! i = rev rs ! i"
        using \<open>i < length rs\<close> by (simp add: rc nth_append)
      ultimately show "ignore (rev rs ! i)" using \<open>i < length rs\<close> len by simp
    qed
    define new where
      "new = rev rs @ [r\<lparr>ignore := True\<rparr>, \<lparr>for_query = Some q, ignore = False, settled = False\<rparr>]"
    have runs_new: "runs (setQuery q c) = new"
      using False Cons by (simp add: new_def setQuery_def effect_def cleanup_def dispatch_def)
    have "ignore (new ! i) = (Suc i < length new)" if "i < length new" for i
    proof -
      from that consider "i < length rs" | "i = length rs" | "i = Suc (length rs)"
        unfolding new_def by force
      then show ?thesis
      proof cases
        case 1
        then show ?thesis using old by (simp add: new_def nth_append)
      next
        case 2
        then show ?thesis by (simp add: new_def nth_append)
      next
        case 3
        then show ?thesis by (simp add: new_def nth_append)
      qed
    qed
    then show ?thesis by (simp add: fresh_last_def runs_new)
  qed
qed

lemma ignore_settle:
  "j < length (runs c) \<Longrightarrow> ignore (runs (settle i c) ! j) = ignore (runs c ! j)"
  by (cases "i = j") (simp_all add: settle_def)

lemma fresh_last_settle: "fresh_last c \<Longrightarrow> fresh_last (settle i c)"
proof -
  assume "fresh_last c"
  have "length (runs (settle i c)) = length (runs c)" by (simp add: settle_def)
  with \<open>fresh_last c\<close> show ?thesis by (simp add: fresh_last_def ignore_settle)
qed

lemma fresh_last_dispatch: "fresh_last c \<Longrightarrow> fresh_last (dispatch a c)"
  by (simp add: fresh_last_def dispatch_def)

lemma fresh_last_step: "fresh_last c \<Longrightarrow> fresh_last (step c e)"
  by (cases e)
    (simp_all add: fresh_last_setQuery on_fulfilled_def on_rejected_def
      fresh_last_settle fresh_last_dispatch)

lemma fresh_last_mount: "fresh_last mount"
  by (simp add: fresh_last_def mount_def effect_def dispatch_def first_render_def)

lemma fresh_last_run: "fresh_last (run evs)"
  by (induction evs rule: rev_induct)
    (simp_all add: run_Nil run_snoc fresh_last_mount fresh_last_step)

text \<open>
  The handler for a fulfilled promise tests \<open>ignore\<close>: when a later run of the effect
  has started, the response of an earlier run dispatches nothing and leaves the state.
\<close>

lemma stale_resolve_dispatches_nothing:
  assumes "Suc i < length (runs (run evs))"
  shows "dispatched (step (run evs) (Resolve i d)) = dispatched (run evs)
    \<and> state (step (run evs) (Resolve i d)) = state (run evs)"
proof -
  have "ignore (runs (run evs) ! i)"
    using fresh_last_run [of evs] assms by (simp add: fresh_last_def)
  then show ?thesis by (simp add: on_fulfilled_def settle_def)
qed

text \<open>
  Claim C7. The handler for a rejected promise does not test \<open>ignore\<close>. The query
  changes to \<open>a\<close> and then to \<open>b\<close>; the run for \<open>a\<close> (index 1, after the run of the
  first render) has its \<open>ignore\<close> set and the state is \<open>loading\<close> for \<open>b\<close>. When
  the promise of the run for \<open>a\<close> then rejects, \<open>failure\<close> is dispatched and the state
  becomes \<open>error\<close>.
\<close>

theorem stale_rejection_dispatches_failure:
  "for_query (runs (run [SetQuery ''a'', SetQuery ''b'']) ! 1) = Some ''a''
   \<and> query (run [SetQuery ''a'', SetQuery ''b'']) = Some ''b''
   \<and> ignore (runs (run [SetQuery ''a'', SetQuery ''b'']) ! 1)
   \<and> state (run [SetQuery ''a'', SetQuery ''b'']) = Loading
   \<and> state (run [SetQuery ''a'', SetQuery ''b'', Reject 1 (JString ''timeout'')])
       = Error (JString ''timeout'')
   \<and> dispatched (run [SetQuery ''a'', SetQuery ''b'', Reject 1 (JString ''timeout'')])
       = dispatched (run [SetQuery ''a'', SetQuery ''b'']) @ [Failure (JString ''timeout'')]"
  by (simp add: run_def mount_def first_render_def effect_def cleanup_def dispatch_def
      setQuery_def on_rejected_def settle_def)

subsection \<open>The payload of a failure\<close>

text \<open>
  Claim C9. The handler for a rejected promise passes the rejection reason on as it is.
  \<open>axios\<close> rejects with an Error object, not with a string: the \<open>error\<close> field of
  the resulting state is then that object.
\<close>

theorem rejection_reason_not_string:
  "state (run [Reject 0 (JObject [(''message'', JString ''Network Error'')])])
     = Error (JObject [(''message'', JString ''Network Error'')])
   \<and> \<not> is_string (JObject [(''message'', JString ''Network Error'')])"
  by (simp add: run_def mount_def first_render_def effect_def dispatch_def
      on_rejected_def settle_def)

end
